theory Spec2Isabelle
  imports Complex_Main "HOL-Library.AList" "HOL-Library.Sublist" "HOL-Library.Product_Lexorder"
begin

section \<open>Data model of \<open>auto_bot.py\<close>\<close>

text \<open>
  Conventions of the embedding.
  \<^item> A Python \<open>str\<close> is a \<open>string\<close>: the list of the bytes of its UTF-8 encoding. Substring
    and prefix tests on code points and on UTF-8 bytes agree, so \<open>in\<close> and \<open>startswith\<close>
    are the byte-level tests. Glyphs outside ASCII are written as their bytes.
  \<^item> A Python \<open>float\<close> is a \<open>pyfloat\<close>: the rational number that a finite float denotes, or
    one of \<open>inf\<close>, \<open>-inf\<close> and \<open>nan\<close>. The result of \<open>round(x, 2)\<close> is taken to be the
    multiple \<open>k / 100\<close> itself, of which Python stores the nearest double: two values that
    \<open>round(x, 2)\<close> returns compare in Python as their multiples \<open>k / 100\<close> do in the model.
    Negative zero is the number 0.
  \<^item> A Python \<open>dict\<close> whose iteration order matters is an association list with distinct
    keys; assignment \<open>d[k] = v\<close> is \<open>AList.update\<close> (in place for an existing key, appended
    for a new one), \<open>d.get(k)\<close> is \<open>map_of\<close>. The dictionary \<open>last_prices\<close>, of which only
    lookups and assignments are used, is a map from symbols to prices.
  \<^item> An exception is a value \<open>Inl e\<close> of a sum type.
\<close>

datatype py_error = KeyError | TypeError | ValueError | OverflowError

datatype pyfloat = Fin rat | PInf | NInf | NaN

text \<open>\<open>a < b\<close> on floats: every comparison with \<open>nan\<close> is false.\<close>

fun py_less :: "pyfloat \<Rightarrow> pyfloat \<Rightarrow> bool" where
  "py_less NaN b = False"
| "py_less a NaN = False"
| "py_less (Fin x) (Fin y) = (x < y)"
| "py_less (Fin x) PInf = True"
| "py_less (Fin x) NInf = False"
| "py_less PInf b = False"
| "py_less NInf NInf = False"
| "py_less NInf b = True"

text \<open>
  The value that \<open>resp.json()\<close> returns: any JSON document. A number without fraction and
  exponent is an \<open>int\<close> of any size; every other number is a \<open>float\<close>, and the decoder also
  reads \<open>NaN\<close>, \<open>Infinity\<close> and \<open>-Infinity\<close> and turns a literal beyond the range of a double,
  such as \<open>1e400\<close>, into \<open>inf\<close>.
\<close>

datatype json =
    JNull
  | JBool bool
  | JInt int
  | JFloat pyfloat
  | JStr string
  | JArr "json list"
  | JObj "(string \<times> json) list"

text \<open>\<open>v[k]\<close> with a string key: only a dictionary can be subscripted by a string.\<close>

definition getitem :: "json \<Rightarrow> string \<Rightarrow> py_error + json" where
  "getitem v k =
     (case v of
        JObj kvs \<Rightarrow> (case map_of kvs k of None \<Rightarrow> Inl KeyError | Some x \<Rightarrow> Inr x)
      | _ \<Rightarrow> Inl TypeError)"

text \<open>\<open>n.bit_length()\<close>\<close>

fun bit_length :: "nat \<Rightarrow> nat" where
  "bit_length n = (if n = 0 then 0 else Suc (bit_length (n div 2)))"

text \<open>
  The double nearest to a natural number: the number itself when it has at most 53 bits,
  and otherwise its leading 53 bits rounded by the bits that follow, a tie going to the even
  mantissa. The result is a number; it is beyond the doubles from \<open>2 ^ 1024\<close> on.
\<close>

definition nearest_double :: "nat \<Rightarrow> nat" where
  "nearest_double n =
     (if bit_length n \<le> 53 then n
      else
        (let e = bit_length n - 53;
             q = n div 2 ^ e;
             r = n mod 2 ^ e;
             half = 2 ^ (e - 1)
         in (if r < half then q
             else if half < r then q + 1
             else if even q then q else q + 1) * 2 ^ e))"

text \<open>
  \<open>float(i)\<close> for an \<open>int\<close>: the nearest double, and \<open>OverflowError\<close> when the \<open>int\<close> is too
  large to convert.
\<close>

definition float_of_int :: "int \<Rightarrow> py_error + pyfloat" where
  "float_of_int i =
     (let d = nearest_double (nat \<bar>i\<bar>)
      in if 2 ^ 1024 \<le> d then Inl OverflowError
         else Inr (Fin (if i < 0 then - of_nat d else of_nat d)))"

text \<open>
  \<open>float(v)\<close>. An \<open>int\<close> converts or overflows, a \<open>float\<close> is returned as it is, \<open>True\<close> and
  \<open>False\<close> are 1 and 0, a string is parsed, everything else raises \<open>TypeError\<close>. The parser
  of strings is Python's own; it is the parameter \<open>fl\<close>, which returns \<open>None\<close> where Python
  raises \<open>ValueError\<close> (and \<open>nan\<close> or \<open>inf\<close> for the strings that spell them).
\<close>

definition py_float :: "(string \<Rightarrow> pyfloat option) \<Rightarrow> json \<Rightarrow> py_error + pyfloat" where
  "py_float fl v =
     (case v of
        JInt i \<Rightarrow> float_of_int i
      | JFloat x \<Rightarrow> Inr x
      | JBool b \<Rightarrow> Inr (Fin (if b then 1 else 0))
      | JStr s \<Rightarrow> (case fl s of None \<Rightarrow> Inl ValueError | Some x \<Rightarrow> Inr x)
      | _ \<Rightarrow> Inl TypeError)"

text \<open>
  \<open>round(x, 2)\<close> on a finite float: the nearest multiple of 1/100, a tie going to the even
  one.
\<close>

definition round_half_even :: "rat \<Rightarrow> int" where
  "round_half_even q =
     (let f = \<lfloor>q\<rfloor>; d = q - of_int f
      in if d < 1 / 2 then f
         else if 1 / 2 < d then f + 1
         else if even f then f else f + 1)"

definition round2 :: "rat \<Rightarrow> rat" where
  "round2 x = of_int (round_half_even (x * 100)) / 100"

text \<open>\<open>round(x, 2)\<close>: \<open>nan\<close> and the infinities round to themselves.\<close>

definition py_round2 :: "pyfloat \<Rightarrow> pyfloat" where
  "py_round2 x = (case x of Fin r \<Rightarrow> Fin (round2 r) | _ \<Rightarrow> x)"

subsection \<open>Tickers and movement indicators\<close>

definition TICKERS :: "(string \<times> string) list" where
  "TICKERS =
     [(''BTC'', ''bitcoin''),
      (''ETH'', ''ethereum''),
      (''BNB'', ''binancecoin''),
      (''SOL'', ''solana''),
      (''XAU'', ''tether-gold'')]"

text \<open>The four indicator strings of the source: a space and a glyph.\<close>

definition arrow_flat :: string where
  "arrow_flat = [CHR '' '', CHR 0xE2, CHR 0x9E, CHR 0xA1, CHR 0xEF, CHR 0xB8, CHR 0x8F]"

definition arrow_up :: string where
  "arrow_up = [CHR '' '', CHR 0xF0, CHR 0x9F, CHR 0x94, CHR 0xBC]"

definition arrow_down :: string where
  "arrow_down = [CHR '' '', CHR 0xF0, CHR 0x9F, CHR 0x94, CHR 0xBD]"

definition arrow_unknown :: string where
  "arrow_unknown = [CHR '' '', CHR 0xE2, CHR 0x9D, CHR 0x93]"

type_synonym snapshot = "(string \<times> (pyfloat option \<times> string)) list"

subsection \<open>The price store\<close>

text \<open>
  The state that \<open>get_market_prices\<close> reads and writes: the global \<open>last_prices\<close>, the
  content of \<open>prices.json\<close> (\<open>None\<close> when the file holds no well-formed price map) and the
  lines printed to the console.
\<close>

record world =
  last_prices :: "string \<rightharpoonup> pyfloat"
  prices_file :: "(string \<rightharpoonup> pyfloat) option"
  console :: "string list"

text \<open>
  What the operating system does with one write of \<open>prices.json\<close>: it succeeds, or it
  raises an exception with text \<open>e\<close> and leaves the content \<open>c\<close> behind in the file.
\<close>

datatype write_outcome = WriteOk | WriteFails string "(string \<rightharpoonup> pyfloat) option"

definition save_last_prices ::
  "write_outcome \<Rightarrow> (string \<rightharpoonup> pyfloat) \<Rightarrow> world \<Rightarrow> world" where
  "save_last_prices wr prices w =
     (case wr of
        WriteOk \<Rightarrow> w\<lparr>prices_file := Some prices\<rparr>
      | WriteFails e c \<Rightarrow>
          w\<lparr>prices_file := c, console := console w @ [''Error saving prices.json: '' @ e]\<rparr>)"

section \<open>The price fetcher\<close>

text \<open>\<open>round(float(data[coin_id]["usd"]), 2)\<close>, the only statement of the inner \<open>try\<close> that can raise.\<close>

definition current_price ::
  "(string \<Rightarrow> pyfloat option) \<Rightarrow> json \<Rightarrow> string \<Rightarrow> py_error + pyfloat" where
  "current_price fl data coin_id =
     (case getitem data coin_id of
        Inl e \<Rightarrow> Inl e
      | Inr entry \<Rightarrow>
          (case getitem entry ''usd'' of
             Inl e \<Rightarrow> Inl e
           | Inr v \<Rightarrow> (case py_float fl v of Inl e \<Rightarrow> Inl e | Inr x \<Rightarrow> Inr (py_round2 x))))"

text \<open>
  One iteration of the loop over \<open>TICKERS.items()\<close>, on the pair of \<open>last_prices\<close> and the
  snapshot \<open>prices\<close> built so far. The bare \<open>except\<close> catches every error of the iteration.
\<close>

definition fetch_step ::
  "(string \<Rightarrow> pyfloat option) \<Rightarrow> json \<Rightarrow> (string \<rightharpoonup> pyfloat) \<times> snapshot
     \<Rightarrow> string \<times> string \<Rightarrow> (string \<rightharpoonup> pyfloat) \<times> snapshot" where
  "fetch_step fl data st t =
     (case st of (lp, prices) \<Rightarrow>
      case t of (name, coin_id) \<Rightarrow>
        (case current_price fl data coin_id of
           Inr cp \<Rightarrow>
             (let arrow =
                (case lp name of
                   Some old \<Rightarrow>
                     if py_less old cp then arrow_up
                     else if py_less cp old then arrow_down
                     else arrow_flat
                 | None \<Rightarrow> arrow_flat)
              in (lp(name \<mapsto> cp), AList.update name (Some cp, arrow) prices))
         | Inl e \<Rightarrow> (lp, AList.update name (None, arrow_unknown) prices)))"

text \<open>The handler of the outer \<open>try\<close>: every ticker is marked unavailable.\<close>

definition mark_all_unknown :: "snapshot \<Rightarrow> snapshot" where
  "mark_all_unknown prices =
     foldl (\<lambda>p name. AList.update name (None, arrow_unknown) p) prices (map fst TICKERS)"

text \<open>
  \<open>get_market_prices\<close>. The request is the argument \<open>resp\<close>: \<open>Inl e\<close> when \<open>requests.get\<close>
  or \<open>resp.json()\<close> raises an exception with text \<open>e\<close> (both happen before the loop, so the
  snapshot is still empty), \<open>Inr data\<close> when the body was decoded to \<open>data\<close>. The result
  is the returned snapshot and the world after the call.
\<close>

definition get_market_prices ::
  "(string \<Rightarrow> pyfloat option) \<Rightarrow> string + json \<Rightarrow> write_outcome \<Rightarrow> world
     \<Rightarrow> snapshot \<times> world" where
  "get_market_prices fl resp wr w =
     (case resp of
        Inr data \<Rightarrow>
          (case foldl (fetch_step fl data) (last_prices w, []) TICKERS of
             (lp, prices) \<Rightarrow>
               (prices, save_last_prices wr lp (w\<lparr>last_prices := lp\<rparr>)))
      | Inl e \<Rightarrow>
          (mark_all_unknown [],
           save_last_prices wr (last_prices w)
             (w\<lparr>console := console w @ [''Error fetching CoinGecko data: '' @ e]\<rparr>)))"

section \<open>The message formatter\<close>

text \<open>
  The instant that \<open>datetime.now(ZoneInfo("Asia/Bangkok"))\<close> returns, as its local calendar
  fields. It is an argument of every function that reads the clock.
\<close>

record datetime =
  year :: nat
  month :: nat
  day :: nat
  hour :: nat
  minute :: nat
  second :: nat

text \<open>\<open>now.date()\<close>\<close>

definition date :: "datetime \<Rightarrow> nat \<times> nat \<times> nat" where
  "date t = (year t, month t, day t)"

definition digit_char :: "nat \<Rightarrow> char" where
  "digit_char n = char_of (48 + n)"

text \<open>The decimal digits of a natural number, as \<open>str\<close> prints them.\<close>

fun str_nat :: "nat \<Rightarrow> string" where
  "str_nat n = (if n < 10 then [digit_char n] else str_nat (n div 10) @ [digit_char (n mod 10)])"

text \<open>Zero padding on the left up to a width, as \<open>%02d\<close> does.\<close>

definition zfill :: "nat \<Rightarrow> string \<Rightarrow> string" where
  "zfill w s = replicate (w - length s) (CHR ''0'') @ s"

text \<open>\<open>now.strftime("%Y-%m-%d %H:%M:%S")\<close>, for years of at most four digits.\<close>

definition strftime :: "datetime \<Rightarrow> string" where
  "strftime t =
     zfill 4 (str_nat (year t)) @ ''-'' @ zfill 2 (str_nat (month t)) @ ''-'' @
     zfill 2 (str_nat (day t)) @ '' '' @ zfill 2 (str_nat (hour t)) @ '':'' @
     zfill 2 (str_nat (minute t)) @ '':'' @ zfill 2 (str_nat (second t))"

text \<open>A comma after every third digit, counted over the reversed digits.\<close>

fun group3 :: "string \<Rightarrow> string" where
  "group3 (a # b # c # d # r) = a # b # c # CHR '','' # group3 (d # r)"
| "group3 s = s"

definition commas :: "string \<Rightarrow> string" where
  "commas s = rev (group3 (rev s))"

text \<open>
  The format specification \<open>,.2f\<close>: sign, integer part with thousands separators, a point
  and two decimals of the value rounded to hundredths.
\<close>

definition fmt_comma_2f :: "pyfloat \<Rightarrow> string" where
  "fmt_comma_2f v =
     (case v of
        Fin x \<Rightarrow>
          (let c = nat (round_half_even (\<bar>x\<bar> * 100))
           in (if x < 0 then ''-'' else []) @ commas (str_nat (c div 100)) @ ''.'' @
              zfill 2 (str_nat (c mod 100)))
      | PInf \<Rightarrow> ''inf''
      | NInf \<Rightarrow> ''-inf''
      | NaN \<Rightarrow> ''nan'')"

definition glyph_money_bag :: string where
  "glyph_money_bag = [CHR 0xF0, CHR 0x9F, CHR 0x92, CHR 0xB0]"

definition glyph_gem :: string where
  "glyph_gem = [CHR 0xF0, CHR 0x9F, CHR 0x92, CHR 0x8E]"

definition glyph_yellow :: string where
  "glyph_yellow = [CHR 0xF0, CHR 0x9F, CHR 0x9F, CHR 0xA1]"

definition glyph_purple :: string where
  "glyph_purple = [CHR 0xF0, CHR 0x9F, CHR 0x9F, CHR 0xA3]"

definition glyph_medal :: string where
  "glyph_medal = [CHR 0xF0, CHR 0x9F, CHR 0x8F, CHR 0x85]"

definition glyph_warning :: string where
  "glyph_warning = [CHR 0xE2, CHR 0x9A, CHR 0xA0, CHR 0xEF, CHR 0xB8, CHR 0x8F]"

definition glyph_money_wings :: string where
  "glyph_money_wings = [CHR 0xF0, CHR 0x9F, CHR 0x92, CHR 0xB8]"

definition glyph_chart :: string where
  "glyph_chart = [CHR 0xF0, CHR 0x9F, CHR 0x92, CHR 0xB9]"

definition glyph_wave :: string where
  "glyph_wave = [CHR 0xF0, CHR 0x9F, CHR 0x91, CHR 0x8B]"

definition default_title :: string where
  "default_title = glyph_chart @ '' Live Market Prices''"

definition coin_symbol :: "string \<Rightarrow> string" where
  "coin_symbol coin =
     (if coin = ''BTC'' then glyph_money_bag
      else if coin = ''ETH'' then glyph_gem
      else if coin = ''BNB'' then glyph_yellow
      else if coin = ''SOL'' then glyph_purple
      else glyph_medal)"

text \<open>The text that one iteration of the loop over \<open>prices.items()\<close> appends.\<close>

definition format_line :: "string \<times> (pyfloat option \<times> string) \<Rightarrow> string" where
  "format_line e =
     (case e of (coin, (price, arrow)) \<Rightarrow>
        (case price of
           Some p \<Rightarrow> coin_symbol coin @ '' '' @ coin @ ''/USD: $'' @ fmt_comma_2f p @ arrow @ [CHR 0x0A]
         | None \<Rightarrow> glyph_warning @ '' '' @ coin @ ''/USD: N/A'' @ arrow @ [CHR 0x0A]))"

definition tagline :: string where
  "tagline =
     [CHR 0x0A] @ glyph_money_bag @ '' One trade is enough to change your life '' @ glyph_money_wings"

definition format_market_message :: "datetime \<Rightarrow> snapshot \<Rightarrow> string \<Rightarrow> string" where
  "format_market_message now prices title =
     foldl (\<lambda>message e. message @ format_line e)
       (title @ '' ('' @ strftime now @ ''):'' @ [CHR 0x0A, CHR 0x0A]) prices
     @ tagline"

section \<open>The scheduler loop\<close>

definition target_times :: "(nat \<times> nat) list" where
  "target_times = [(9, 0), (12, 0), (19, 0)]"

type_synonym sent_key = "(nat \<times> nat \<times> nat) \<times> nat \<times> nat"

text \<open>
  The state of \<open>schedule_updates\<close>: the set \<open>sent_today\<close>, the broadcasts performed so far (the
  key of each), and whether the task has ended with the exception of a failed send.
\<close>

record sched =
  sent_today :: "sent_key set"
  broadcasts :: "sent_key list"
  stopped :: bool

text \<open>
  One iteration of the loop over \<open>target_times\<close>. \<open>ok\<close> tells whether
  \<open>send_market_update\<close> returns; when it raises, the exception leaves the coroutine and the
  key is not added.
\<close>

definition target_step :: "datetime \<Rightarrow> bool \<Rightarrow> sched \<Rightarrow> nat \<times> nat \<Rightarrow> sched" where
  "target_step now ok s tm =
     (case tm of (h, m) \<Rightarrow>
        if stopped s then s
        else if hour now = h \<and> minute now = m then
          (let key = (date now, h, m)
           in if key \<notin> sent_today s then
                (if ok then s\<lparr>sent_today := insert key (sent_today s),
                              broadcasts := broadcasts s @ [key]\<rparr>
                 else s\<lparr>stopped := True\<rparr>)
              else s)
        else s)"

text \<open>One iteration of \<open>while True\<close>, for the clock sample \<open>now\<close>.\<close>

definition tick :: "sched \<Rightarrow> datetime \<times> bool \<Rightarrow> sched" where
  "tick s sample =
     (case sample of (now, ok) \<Rightarrow>
        if stopped s then s
        else
          (let s1 = foldl (target_step now ok) s target_times
           in if stopped s1 then s1
              else if hour now = 0 \<and> minute now = 0 then s1\<lparr>sent_today := {}\<rparr>
              else s1))"

text \<open>
  The loop never returns; \<open>schedule_updates samples\<close> is its state after the iterations
  that read the clock samples \<open>samples\<close>, in this order.
\<close>

definition schedule_updates :: "(datetime \<times> bool) list \<Rightarrow> sched" where
  "schedule_updates samples =
     foldl tick \<lparr>sent_today = {}, broadcasts = [], stopped = False\<rparr> samples"

text \<open>The position of a sample on the local time line, up to the minute.\<close>

definition clock_key :: "datetime \<Rightarrow> sent_key" where
  "clock_key t = (date t, hour t, minute t)"

section \<open>The handlers\<close>

text \<open>The calls of the chat platform API that a handler makes.\<close>

datatype action =
    ReplyText string
  | SendMessage int string string




text \<open>\<open>needle in hay\<close>\<close>

fun py_in :: "string \<Rightarrow> string \<Rightarrow> bool" where
  "py_in needle [] = (needle = [])"
| "py_in needle (c # cs) = (prefix needle (c # cs) \<or> py_in needle cs)"



text \<open>
  \<open>s.replace(old, new)\<close> for a non-empty \<open>old\<close>: every occurrence, from the left, without
  overlap.
\<close>

fun replace :: "string \<Rightarrow> string \<Rightarrow> string \<Rightarrow> string" where
  "replace old new [] = []"
| "replace old new (c # cs) =
     (if old \<noteq> [] \<and> prefix old (c # cs)
      then new @ replace old new (drop (length old - 1) cs)
      else c # replace old new cs)"

text \<open>
  The fields of a membership update that the handler \<open>welcome\<close> reads. \<open>mention_html\<close> is
  the string that the library renders for \<open>new_chat_member.user\<close>.
\<close>

record chat_member_updated =
  old_status :: string
  new_status :: string
  mention_html :: string
  chat_id :: int

definition default_welcome :: string where
  "default_welcome = glyph_wave @ '' Welcome {name}!''"

text \<open>The handler \<open>welcome\<close> (the name alone is a command of the theory language).\<close>

definition welcome_handler :: "(string \<times> string) list \<Rightarrow> chat_member_updated \<Rightarrow> action list" where
  "welcome_handler responses result =
     (if (old_status result = ''left'' \<or> old_status result = ''kicked'')
         \<and> new_status result = ''member''
      then
        (let welcome_message =
               (case map_of responses ''_welcome'' of Some t \<Rightarrow> t | None \<Rightarrow> default_welcome)
         in [SendMessage (chat_id result)
               (replace ''{name}'' (mention_html result) welcome_message) ''HTML''])
      else [])"

section \<open>Vocabulary of the properties\<close>

text \<open>
  The price that a fetch obtains for one coin id: \<open>None\<close> when the request fails as a whole
  or when \<open>round(float(data[coin_id]["usd"]), 2)\<close> raises.
\<close>

definition parsed_price ::
  "(string \<Rightarrow> pyfloat option) \<Rightarrow> string + json \<Rightarrow> string \<Rightarrow> pyfloat option" where
  "parsed_price fl resp coin_id =
     (case resp of
        Inl e \<Rightarrow> None
      | Inr data \<Rightarrow> (case current_price fl data coin_id of Inl e \<Rightarrow> None | Inr cp \<Rightarrow> Some cp))"

text \<open>
  The entry that one iteration of the loop records for a ticker, as a function of the price
  stored before the iteration and of the price parsed (the body of the loop, without the
  state).
\<close>

definition snapshot_entry :: "pyfloat option \<Rightarrow> pyfloat option \<Rightarrow> pyfloat option \<times> string" where
  "snapshot_entry old parsed =
     (case parsed of
        Some cp \<Rightarrow>
          (Some cp,
           case old of
             Some p \<Rightarrow>
               if py_less p cp then arrow_up else if py_less cp p then arrow_down else arrow_flat
           | None \<Rightarrow> arrow_flat)
      | None \<Rightarrow> (None, arrow_unknown))"

section \<open>Properties of the price fetcher\<close>

subsection \<open>The conversion of an integer to a float\<close>

declare bit_length.simps [simp del]

lemma bit_length_bound: "n < 2 ^ bit_length n"
proof (induction n rule: bit_length.induct)
  case (1 n)
  show ?case
  proof (cases "n = 0")
    case True
    then show ?thesis by (simp add: bit_length.simps)
  next
    case False
    with 1 have "n div 2 < 2 ^ bit_length (n div 2)" by simp
    then have "n < 2 * 2 ^ bit_length (n div 2)" by linarith
    with False show ?thesis by (simp add: bit_length.simps [of n])
  qed
qed

lemma bit_length_lower: "n \<noteq> 0 \<Longrightarrow> 2 ^ (bit_length n - 1) \<le> n"
proof (induction n rule: bit_length.induct)
  case (1 n)
  show ?case
  proof (cases "n div 2 = 0")
    case True
    with 1(2) have "n = Suc 0" by linarith
    then show ?thesis by (simp add: bit_length.simps [of "Suc 0"] bit_length.simps [of 0])
  next
    case False
    with 1 have "2 ^ (bit_length (n div 2) - 1) \<le> n div 2" by simp
    then have le: "2 * 2 ^ (bit_length (n div 2) - 1) \<le> n" by linarith
    from False have "bit_length (n div 2) \<noteq> 0"
      by (simp add: bit_length.simps [of "n div 2"])
    then have "2 * 2 ^ (bit_length (n div 2) - 1) = (2::nat) ^ bit_length (n div 2)"
      by (cases "bit_length (n div 2)") simp_all
    with le 1(2) show ?thesis by (simp add: bit_length.simps [of n])
  qed
qed

lemma bit_length_le: "n < 2 ^ k \<Longrightarrow> bit_length n \<le> k"
proof (rule ccontr)
  assume n: "n < 2 ^ k" and "\<not> bit_length n \<le> k"
  then have k: "k \<le> bit_length n - 1" by simp
  have "n \<noteq> 0"
  proof
    assume "n = 0"
    then have "bit_length n = 0" by (simp add: bit_length.simps [of 0])
    with \<open>\<not> bit_length n \<le> k\<close> show False by simp
  qed
  then have "2 ^ (bit_length n - 1) \<le> n" by (rule bit_length_lower)
  moreover from k have "(2::nat) ^ k \<le> 2 ^ (bit_length n - 1)" by (simp add: power_increasing)
  ultimately show False using n by linarith
qed

lemma nearest_double_small: "n < 2 ^ 53 \<Longrightarrow> nearest_double n = n"
  by (simp add: nearest_double_def bit_length_le)

lemma nearest_double_large:
  assumes "2 ^ 1024 \<le> n"
  shows "2 ^ 1024 \<le> nearest_double n"
proof -
  define b where "b = bit_length n"
  have "n < 2 ^ b" unfolding b_def by (rule bit_length_bound)
  with assms have lt: "(2::nat) ^ 1024 < 2 ^ b" by linarith
  have "(1::nat) < 2" by simp
  from power_less_imp_less_exp [OF this lt] have b: "1024 < b" .
  define e where "e = b - 53"
  have be: "b - 1 = 52 + e" using b by (simp add: e_def)
  from assms have "n \<noteq> 0" by auto
  then have "2 ^ (b - 1) \<le> n" unfolding b_def by (rule bit_length_lower)
  then have low: "2 ^ 52 * 2 ^ e \<le> n" by (simp only: be power_add)
  then have q: "2 ^ 52 \<le> n div 2 ^ e"
    by (simp add: less_eq_div_iff_mult_less_eq)
  define q' where "q' = (if n mod 2 ^ e < 2 ^ (e - 1) then n div 2 ^ e
             else if 2 ^ (e - 1) < n mod 2 ^ e then n div 2 ^ e + 1
             else if even (n div 2 ^ e) then n div 2 ^ e else n div 2 ^ e + 1)"
  have "n div 2 ^ e \<le> q'" by (simp add: q'_def)
  with q have "2 ^ 52 \<le> q'" by linarith
  then have "2 ^ 52 * 2 ^ e \<le> q' * 2 ^ e" by simp
  moreover have "(2::nat) ^ 1024 \<le> 2 ^ 52 * 2 ^ e"
  proof -
    from b be have "1024 \<le> 52 + e" by linarith
    then have "(2::nat) ^ 1024 \<le> 2 ^ (52 + e)" by (rule power_increasing) simp
    then show ?thesis by (simp add: power_add)
  qed
  moreover have "nearest_double n = q' * 2 ^ e"
    using b by (simp add: nearest_double_def b_def [symmetric] e_def [symmetric] q'_def Let_def)
  ultimately show ?thesis by linarith
qed

lemma float_of_int_small: "\<bar>i\<bar> < 2 ^ 53 \<Longrightarrow> float_of_int i = Inr (Fin (of_int i))"
proof -
  assume a: "\<bar>i\<bar> < 2 ^ 53"
  then have "nat \<bar>i\<bar> < 2 ^ 53" by (simp add: nat_less_iff)
  then have n: "nearest_double (nat \<bar>i\<bar>) = nat \<bar>i\<bar>" by (rule nearest_double_small)
  have "(2::nat) ^ 53 \<le> 2 ^ 1024" by (rule power_increasing) simp_all
  with \<open>nat \<bar>i\<bar> < 2 ^ 53\<close> have "\<not> 2 ^ 1024 \<le> nat \<bar>i\<bar>" by linarith
  then show ?thesis
    by (simp add: float_of_int_def n Let_def del: power_increasing_iff)
qed

lemma float_of_int_overflow: "2 ^ 1024 \<le> \<bar>i\<bar> \<Longrightarrow> float_of_int i = Inl OverflowError"
proof -
  assume "2 ^ 1024 \<le> \<bar>i\<bar>"
  then have "2 ^ 1024 \<le> nat \<bar>i\<bar>" by (simp add: le_nat_iff)
  then have "2 ^ 1024 \<le> nearest_double (nat \<bar>i\<bar>)" by (rule nearest_double_large)
  then show ?thesis by (simp add: float_of_int_def Let_def)
qed

text \<open>
  An \<open>int\<close> too large for a double is a parse failure of the symbol, and \<open>nan\<close> is a price
  that is neither above nor below any stored price.
\<close>

lemma big_int_not_parsed:
  assumes "2 ^ 1024 \<le> \<bar>i\<bar>"
    and "getitem data coin_id = Inr entry"
    and "getitem entry ''usd'' = Inr (JInt i)"
  shows "parsed_price fl (Inr data) coin_id = None"
  using assms(2,3) float_of_int_overflow [OF assms(1)]
  by (simp add: parsed_price_def current_price_def py_float_def)

lemma nan_is_flat: "snapshot_entry (Some old) (Some NaN) = (Some NaN, arrow_flat)"
  by (cases old) (simp_all add: snapshot_entry_def)

subsection \<open>The loop over the tickers\<close>

lemma fetch_loop_last_prices:
  "distinct (map fst ts) \<Longrightarrow>
   fst (foldl (fetch_step fl data) (lp, ps) ts) n =
     (case map_of ts n of
        None \<Rightarrow> lp n
      | Some c \<Rightarrow> (case parsed_price fl (Inr data) c of Some cp \<Rightarrow> Some cp | None \<Rightarrow> lp n))"
proof (induction ts arbitrary: lp ps)
  case Nil
  then show ?case by simp
next
  case (Cons t ts)
  obtain name c where t: "t = (name, c)" by (cases t)
  from Cons.prems have d: "distinct (map fst ts)" and nin: "name \<notin> fst ` set ts"
    by (auto simp: t)
  from nin have none: "map_of ts name = None"
    by (simp add: map_of_eq_None_iff)
  show ?case
    using Cons.IH [OF d] none
    by (cases "current_price fl data c")
       (auto simp: t fetch_step_def parsed_price_def split: option.splits sum.splits)
qed

lemma fetch_loop_snapshot:
  "distinct (map fst ts) \<Longrightarrow>
   map_of (snd (foldl (fetch_step fl data) (lp, ps) ts)) n =
     (case map_of ts n of
        None \<Rightarrow> map_of ps n
      | Some c \<Rightarrow> Some (snapshot_entry (lp n) (parsed_price fl (Inr data) c)))"
proof (induction ts arbitrary: lp ps)
  case Nil
  then show ?case by simp
next
  case (Cons t ts)
  obtain name c where t: "t = (name, c)" by (cases t)
  from Cons.prems have d: "distinct (map fst ts)" and nin: "name \<notin> fst ` set ts"
    by (auto simp: t)
  from nin have none: "map_of ts name = None"
    by (simp add: map_of_eq_None_iff)
  show ?case
    using Cons.IH [OF d] none
    by (cases "current_price fl data c")
       (auto simp: t fetch_step_def snapshot_entry_def parsed_price_def update_conv' Let_def
             split: option.splits sum.splits)
qed

lemma fetch_step_keys:
  "map fst (snd (fetch_step fl data (lp, ps) (name, c))) =
     (if name \<in> set (map fst ps) then map fst ps else map fst ps @ [name])"
  by (cases "current_price fl data c") (simp_all add: fetch_step_def Let_def update_keys)

lemma fetch_loop_keys:
  "map fst (snd (foldl (fetch_step fl data) (lp, ps) ts)) =
     foldl (\<lambda>ks k. if k \<in> set ks then ks else ks @ [k]) (map fst ps) (map fst ts)"
proof (induction ts arbitrary: lp ps)
  case Nil
  then show ?case by simp
next
  case (Cons t ts)
  obtain name c where t: "t = (name, c)" by (cases t)
  obtain lp' ps' where step: "fetch_step fl data (lp, ps) (name, c) = (lp', ps')"
    by (cases "fetch_step fl data (lp, ps) (name, c)")
  from fetch_step_keys [of fl data lp ps name c]
  have "map fst ps' = (if name \<in> set (map fst ps) then map fst ps else map fst ps @ [name])"
    by (simp add: step)
  then show ?case
    using Cons.IH [of lp' ps'] by (simp add: t step)
qed

lemma mark_unknown_map_of:
  "map_of (foldl (\<lambda>p name. AList.update name (None, arrow_unknown) p) ps ns) n =
     (if n \<in> set ns then Some (None, arrow_unknown) else map_of ps n)"
  by (induction ns arbitrary: ps) (auto simp: update_conv')

lemma mark_unknown_keys:
  "map fst (foldl (\<lambda>p name. AList.update name (None, arrow_unknown) p) ps ns) =
     foldl (\<lambda>ks k. if k \<in> set ks then ks else ks @ [k]) (map fst ps) ns"
  by (induction ns arbitrary: ps) (simp_all add: update_keys)

lemma distinct_TICKERS: "distinct (map fst TICKERS)"
  by (simp add: TICKERS_def)

lemma distinct_coin_ids: "distinct (map snd TICKERS)"
  by (simp add: TICKERS_def)

lemma TICKERS_keys:
  "foldl (\<lambda>ks k. if k \<in> set ks then ks else ks @ [k]) [] (map fst TICKERS) = map fst TICKERS"
  by (simp add: TICKERS_def)

lemma last_prices_save [simp]: "last_prices (save_last_prices wr m w) = last_prices w"
  by (cases wr) (simp_all add: save_last_prices_def)

lemma snapshot_of_fetch:
  assumes "(name, coin_id) \<in> set TICKERS"
  shows "map_of (fst (get_market_prices fl resp wr w)) name =
           Some (snapshot_entry (last_prices w name) (parsed_price fl resp coin_id))"
proof (cases resp)
  case (Inl e)
  from assms have "name \<in> set (map fst TICKERS)" by force
  then show ?thesis
    by (simp add: Inl get_market_prices_def mark_all_unknown_def mark_unknown_map_of
          snapshot_entry_def parsed_price_def)
next
  case (Inr data)
  from assms have m: "map_of TICKERS name = Some coin_id"
    by (simp add: distinct_TICKERS)
  show ?thesis
    by (simp add: Inr get_market_prices_def case_prod_beta
          fetch_loop_snapshot [OF distinct_TICKERS] m)
qed

lemma last_prices_of_fetch:
  assumes "(name, coin_id) \<in> set TICKERS"
  shows "last_prices (snd (get_market_prices fl resp wr w)) name =
           (case parsed_price fl resp coin_id of Some cp \<Rightarrow> Some cp | None \<Rightarrow> last_prices w name)"
proof (cases resp)
  case (Inl e)
  show ?thesis
    by (simp add: Inl get_market_prices_def parsed_price_def)
next
  case (Inr data)
  from assms have m: "map_of TICKERS name = Some coin_id"
    by (simp add: distinct_TICKERS)
  show ?thesis
    by (simp add: Inr get_market_prices_def case_prod_beta
          fetch_loop_last_prices [OF distinct_TICKERS] m)
qed

lemma keys_of_fetch: "map fst (fst (get_market_prices fl resp wr w)) = map fst TICKERS"
  by (cases resp)
     (simp_all add: get_market_prices_def case_prod_beta fetch_loop_keys mark_all_unknown_def
        mark_unknown_keys TICKERS_keys)

lemma py_less_asym: "py_less x y \<Longrightarrow> \<not> py_less y x"
  by (cases x; cases y) auto

lemma arrows_distinct:
  "arrow_up \<noteq> arrow_down" "arrow_up \<noteq> arrow_flat" "arrow_up \<noteq> arrow_unknown"
  "arrow_down \<noteq> arrow_flat" "arrow_down \<noteq> arrow_unknown" "arrow_flat \<noteq> arrow_unknown"
  "arrow_down \<noteq> arrow_up" "arrow_flat \<noteq> arrow_up" "arrow_unknown \<noteq> arrow_up"
  "arrow_flat \<noteq> arrow_down" "arrow_unknown \<noteq> arrow_down" "arrow_unknown \<noteq> arrow_flat"
  by (simp_all add: arrow_up_def arrow_down_def arrow_flat_def arrow_unknown_def)

lemma prices_file_of_fetch:
  "prices_file (snd (get_market_prices fl resp WriteOk w)) =
     Some (last_prices (snd (get_market_prices fl resp WriteOk w)))"
  by (cases resp) (simp_all add: get_market_prices_def case_prod_beta save_last_prices_def)

lemma coin_id_inj:
  "(n, c) \<in> set TICKERS \<Longrightarrow> (m, c) \<in> set TICKERS \<Longrightarrow> n = m"
  by (auto simp: TICKERS_def)

lemma current_price_cong:
  "getitem data' c = getitem data c \<Longrightarrow> current_price fl data' c = current_price fl data c"
  by (simp add: current_price_def)

lemma snapshot_entry_cases:
  assumes "snapshot_entry old parsed = (p, a)"
  shows "p = parsed \<and>
     (a = arrow_up \<longleftrightarrow> (\<exists>cp o'. parsed = Some cp \<and> old = Some o' \<and> py_less o' cp)) \<and>
     (a = arrow_down \<longleftrightarrow> (\<exists>cp o'. parsed = Some cp \<and> old = Some o' \<and> py_less cp o')) \<and>
     (a = arrow_flat \<longleftrightarrow>
        (\<exists>cp. parsed = Some cp \<and>
           (old = None \<or> (\<exists>o'. old = Some o' \<and> \<not> py_less o' cp \<and> \<not> py_less cp o')))) \<and>
     (a = arrow_unknown \<longleftrightarrow> parsed = None)"
proof (cases parsed)
  case None
  with assms show ?thesis
    by (auto simp: snapshot_entry_def arrows_distinct)
next
  case (Some cp)
  note parsed = this
  show ?thesis
  proof (cases old)
    case None
    with assms parsed show ?thesis
      by (auto simp: snapshot_entry_def arrows_distinct)
  next
    case (Some o')
    consider "py_less o' cp" | "\<not> py_less o' cp" "py_less cp o'"
      | "\<not> py_less o' cp" "\<not> py_less cp o'"
      by blast
    then show ?thesis
    proof cases
      case 1
      then have "\<not> py_less cp o'" by (rule py_less_asym)
      with assms 1 parsed Some show ?thesis
        by (auto simp: snapshot_entry_def arrows_distinct)
    next
      case 2
      with assms parsed Some show ?thesis
        by (auto simp: snapshot_entry_def arrows_distinct)
    next
      case 3
      with assms parsed Some show ?thesis
        by (auto simp: snapshot_entry_def arrows_distinct)
    qed
  qed
qed


subsection \<open>Movement indicators\<close>

text \<open>
  Claim C1, as amended. For every fetch and every ticker, the snapshot holds the parsed price
  and an indicator; the indicator is "up" iff a price was parsed and it is greater than the
  price stored before the fetch, "down" iff it is less, "unknown" iff no price was parsed
  (the request failed, or \<open>round(float(...), 2)\<close> raised, as it does for absent data, for a
  value that is not a number and for an integer beyond the range of a float), and "flat"
  iff a price was parsed and either no price was stored for the symbol or the parsed price
  is neither greater nor less than the stored one. Neither greater nor less means equal,
  unless one of the two is \<open>nan\<close>. The first observation of a symbol is therefore "flat":
  neither up nor down, and not "unknown".
\<close>

theorem movement_indicator:
  assumes "(name, coin_id) \<in> set TICKERS"
  shows "\<exists>a. map_of (fst (get_market_prices fl resp wr w)) name =
               Some (parsed_price fl resp coin_id, a) \<and>
           (a = arrow_up \<longleftrightarrow>
              (\<exists>cp old. parsed_price fl resp coin_id = Some cp \<and>
                 last_prices w name = Some old \<and> py_less old cp)) \<and>
           (a = arrow_down \<longleftrightarrow>
              (\<exists>cp old. parsed_price fl resp coin_id = Some cp \<and>
                 last_prices w name = Some old \<and> py_less cp old)) \<and>
           (a = arrow_flat \<longleftrightarrow>
              (\<exists>cp. parsed_price fl resp coin_id = Some cp \<and>
                 (last_prices w name = None \<or>
                  (\<exists>old. last_prices w name = Some old \<and>
                     \<not> py_less old cp \<and> \<not> py_less cp old)))) \<and>
           (a = arrow_unknown \<longleftrightarrow> parsed_price fl resp coin_id = None) \<and>
           (\<forall>x y. x \<noteq> NaN \<and> y \<noteq> NaN \<longrightarrow> (\<not> py_less x y \<and> \<not> py_less y x \<longleftrightarrow> x = y))"
proof -
  have total: "\<forall>x y. x \<noteq> NaN \<and> y \<noteq> NaN \<longrightarrow> (\<not> py_less x y \<and> \<not> py_less y x \<longleftrightarrow> x = y)"
  proof (intro allI impI)
    fix x y :: pyfloat
    assume "x \<noteq> NaN \<and> y \<noteq> NaN"
    then show "\<not> py_less x y \<and> \<not> py_less y x \<longleftrightarrow> x = y"
      by (cases x; cases y) auto
  qed
  obtain p a where e: "snapshot_entry (last_prices w name) (parsed_price fl resp coin_id) = (p, a)"
    by (cases "snapshot_entry (last_prices w name) (parsed_price fl resp coin_id)")
  have m: "map_of (fst (get_market_prices fl resp wr w)) name = Some (p, a)"
    by (simp add: snapshot_of_fetch [OF assms] e)
  from snapshot_entry_cases [OF e] have pe: "p = parsed_price fl resp coin_id"
    by (rule conjunct1)
  from snapshot_entry_cases [OF e] total m show ?thesis
    unfolding pe by (intro exI [of _ a] conjI) simp_all
qed

theorem movement_indicator_witness:
  "(''BTC'', ''bitcoin'') \<in> set TICKERS \<and>
   map_of (fst (get_market_prices Map.empty
       (Inr (JObj [(''bitcoin'', JObj [(''usd'', JFloat (Fin 101))])])) WriteOk
       \<lparr>last_prices = [''BTC'' \<mapsto> Fin 100], prices_file = None, console = []\<rparr>)) ''BTC''
     = Some (Some (Fin 101), arrow_up)"
proof -
  have "round2 101 = 101"
    by code_simp
  then have r: "py_round2 (Fin 101) = Fin 101"
    by (simp only: py_round2_def pyfloat.simps)
  have p: "parsed_price Map.empty
      (Inr (JObj [(''bitcoin'', JObj [(''usd'', JFloat (Fin 101))])])) ''bitcoin'' = Some (Fin 101)"
    by (simp add: parsed_price_def current_price_def getitem_def py_float_def r)
  have t: "(''BTC'', ''bitcoin'') \<in> set TICKERS"
    by (simp add: TICKERS_def)
  from movement_indicator [OF t, of Map.empty
      "Inr (JObj [(''bitcoin'', JObj [(''usd'', JFloat (Fin 101))])])" WriteOk
      "\<lparr>last_prices = [''BTC'' \<mapsto> Fin 100], prices_file = None, console = []\<rparr>"] t
  show ?thesis
    by (auto simp: p)
qed

text \<open>
  The claim as stated has "flat" iff the new price equals the previously stored one. On the
  first observation of BTC, at 100, the indicator is "flat" although no price is stored that
  the new one could equal.
\<close>

theorem first_observation_counterexample:
  "map_of (fst (get_market_prices Map.empty
       (Inr (JObj [(''bitcoin'', JObj [(''usd'', JFloat (Fin 100))])])) WriteOk
       \<lparr>last_prices = Map.empty, prices_file = None, console = []\<rparr>)) ''BTC''
     = Some (Some (Fin 100), arrow_flat) \<and>
   last_prices \<lparr>last_prices = Map.empty, prices_file = None, console = []\<rparr> ''BTC'' = None"
proof -
  have "round2 100 = 100"
    by code_simp
  then have r: "py_round2 (Fin 100) = Fin 100"
    by (simp only: py_round2_def pyfloat.simps)
  have p: "parsed_price Map.empty
      (Inr (JObj [(''bitcoin'', JObj [(''usd'', JFloat (Fin 100))])])) ''bitcoin'' = Some (Fin 100)"
    by (simp add: parsed_price_def current_price_def getitem_def py_float_def r)
  have t: "(''BTC'', ''bitcoin'') \<in> set TICKERS"
    by (simp add: TICKERS_def)
  show ?thesis
    by (simp add: snapshot_of_fetch [OF t] p snapshot_entry_def)
qed

subsection \<open>The stored price\<close>

text \<open>
  Claim C3. When the response holds data for a ticker's coin id and \<open>float\<close> accepts its
  \<open>usd\<close> field, with value \<open>x\<close>, the price stored for the symbol after the fetch is \<open>x\<close>
  rounded to two decimals; a successful write leaves the same price in the file. A field on
  which \<open>float\<close> raises, such as an integer beyond the range of a float (lemma
  \<open>big_int_not_parsed\<close>), is not numerically parseable: it does not satisfy the hypothesis.
\<close>

theorem stored_price_is_rounded:
  assumes "(name, coin_id) \<in> set TICKERS"
    and "getitem data coin_id = Inr entry"
    and "getitem entry ''usd'' = Inr v"
    and "py_float fl v = Inr x"
  shows "last_prices (snd (get_market_prices fl (Inr data) wr w)) name = Some (py_round2 x) \<and>
         (\<exists>m. prices_file (snd (get_market_prices fl (Inr data) WriteOk w)) = Some m \<and>
              m name = Some (py_round2 x))"
proof -
  from assms(2-4) have p: "parsed_price fl (Inr data) coin_id = Some (py_round2 x)"
    by (simp add: parsed_price_def current_price_def)
  have l: "last_prices (snd (get_market_prices fl (Inr data) wr' w)) name = Some (py_round2 x)" for wr'
    by (simp add: last_prices_of_fetch [OF assms(1)] p)
  show ?thesis
    by (simp add: l prices_file_of_fetch)
qed

theorem stored_price_is_rounded_witness:
  "(''BTC'', ''bitcoin'') \<in> set TICKERS \<and>
   getitem (JObj [(''bitcoin'', JObj [(''usd'', JFloat (Fin (65000504 / 1000)))])]) ''bitcoin''
     = Inr (JObj [(''usd'', JFloat (Fin (65000504 / 1000)))]) \<and>
   getitem (JObj [(''usd'', JFloat (Fin (65000504 / 1000)))]) ''usd'' = Inr (JFloat (Fin (65000504 / 1000))) \<and>
   py_float Map.empty (JFloat (Fin (65000504 / 1000))) = Inr (Fin (65000504 / 1000)) \<and>
   last_prices (snd (get_market_prices Map.empty
       (Inr (JObj [(''bitcoin'', JObj [(''usd'', JFloat (Fin (65000504 / 1000)))])])) WriteOk
       \<lparr>last_prices = Map.empty, prices_file = None, console = []\<rparr>)) ''BTC''
     = Some (Fin (130001 / 2))"
proof -
  have "round2 (65000504 / 1000) = 130001 / 2"
    by code_simp
  then have r: "py_round2 (Fin (65000504 / 1000)) = Fin (130001 / 2)"
    by (simp only: py_round2_def pyfloat.simps)
  have a: "(''BTC'', ''bitcoin'') \<in> set TICKERS"
    by (simp add: TICKERS_def)
  have b: "getitem (JObj [(''bitcoin'', JObj [(''usd'', JFloat (Fin (65000504 / 1000)))])]) ''bitcoin''
     = Inr (JObj [(''usd'', JFloat (Fin (65000504 / 1000)))])"
    by (simp add: getitem_def)
  have c: "getitem (JObj [(''usd'', JFloat (Fin (65000504 / 1000)))]) ''usd'' = Inr (JFloat (Fin (65000504 / 1000)))"
    by (simp add: getitem_def)
  have d: "py_float Map.empty (JFloat (Fin (65000504 / 1000))) = Inr (Fin (65000504 / 1000))"
    by (simp add: py_float_def)
  from stored_price_is_rounded [OF a b c d, of WriteOk
      "\<lparr>last_prices = Map.empty, prices_file = None, console = []\<rparr>"] a b c d
  show ?thesis by (simp only: r)
qed

subsection \<open>Failure of the whole request\<close>

text \<open>
  Claim C4. When the request fails as a whole (the response is \<open>Inl e\<close>), or no ticker's
  price can be parsed from it, the snapshot has one entry for each ticker, in the order of
  \<open>TICKERS\<close>, and each entry is an absent price with the "unknown" indicator. The price map
  is unchanged and is still written: after a successful write the file holds the full map.
  A failing write changes nothing that the caller receives: the snapshot is the one of a
  successful write, and the failure is the last line of the console.
\<close>

theorem total_failure_all_unknown:
  assumes "\<And>name coin_id. (name, coin_id) \<in> set TICKERS \<Longrightarrow> parsed_price fl resp coin_id = None"
  shows "map fst (fst (get_market_prices fl resp wr w)) = map fst TICKERS \<and>
         (\<forall>name \<in> set (map fst TICKERS).
            map_of (fst (get_market_prices fl resp wr w)) name = Some (None, arrow_unknown)) \<and>
         fst (get_market_prices fl resp wr w) = fst (get_market_prices fl resp WriteOk w) \<and>
         last_prices (snd (get_market_prices fl resp wr w)) = last_prices w \<and>
         prices_file (snd (get_market_prices fl resp WriteOk w)) = Some (last_prices w) \<and>
         (\<forall>e c. wr = WriteFails e c \<longrightarrow>
            prices_file (snd (get_market_prices fl resp wr w)) = c \<and>
            last (console (snd (get_market_prices fl resp wr w))) = ''Error saving prices.json: '' @ e)"
proof -
  have entries: "map_of (fst (get_market_prices fl resp wr w)) name = Some (None, arrow_unknown)"
    if "name \<in> set (map fst TICKERS)" for name
  proof -
    from that obtain coin_id where t: "(name, coin_id) \<in> set TICKERS" by auto
    show ?thesis
      by (simp add: snapshot_of_fetch [OF t] assms [OF t] snapshot_entry_def)
  qed
  have same: "fst (get_market_prices fl resp wr w) = fst (get_market_prices fl resp WriteOk w)"
    by (cases resp) (simp_all add: get_market_prices_def case_prod_beta)
  have lp: "last_prices (snd (get_market_prices fl resp wr' w)) = last_prices w" for wr'
  proof
    fix name
    show "last_prices (snd (get_market_prices fl resp wr' w)) name = last_prices w name"
    proof (cases "map_of TICKERS name")
      case None
      then show ?thesis
        by (cases resp)
           (simp_all add: get_market_prices_def case_prod_beta
              fetch_loop_last_prices [OF distinct_TICKERS])
    next
      case (Some coin_id)
      then have t: "(name, coin_id) \<in> set TICKERS" by (rule map_of_SomeD)
      show ?thesis
        by (simp add: last_prices_of_fetch [OF t] assms [OF t])
    qed
  qed
  have saved: "prices_file (snd (get_market_prices fl resp WriteOk w)) = Some (last_prices w)"
    by (simp add: prices_file_of_fetch lp)
  have failing: "prices_file (snd (get_market_prices fl resp (WriteFails e c) w)) = c \<and>
        last (console (snd (get_market_prices fl resp (WriteFails e c) w))) =
          ''Error saving prices.json: '' @ e" for e c
    by (cases resp) (simp_all add: get_market_prices_def case_prod_beta save_last_prices_def)
  have keys: "map fst (fst (get_market_prices fl resp wr w)) = map fst TICKERS"
    by (rule keys_of_fetch)
  from keys entries lp saved failing show ?thesis
    by (simp add: same del: set_map)
qed


theorem total_failure_all_unknown_witness:
  "fst (get_market_prices Map.empty (Inl ''timed out'') (WriteFails ''disk full'' None)
       \<lparr>last_prices = [''BTC'' \<mapsto> Fin 100], prices_file = None, console = []\<rparr>)
     = [(''BTC'', (None, arrow_unknown)), (''ETH'', (None, arrow_unknown)),
        (''BNB'', (None, arrow_unknown)), (''SOL'', (None, arrow_unknown)),
        (''XAU'', (None, arrow_unknown))] \<and>
   last_prices (snd (get_market_prices Map.empty (Inl ''timed out'') (WriteFails ''disk full'' None)
       \<lparr>last_prices = [''BTC'' \<mapsto> Fin 100], prices_file = None, console = []\<rparr>)) ''BTC''
     = Some (Fin 100) \<and>
   prices_file (snd (get_market_prices Map.empty (Inl ''timed out'') WriteOk
       \<lparr>last_prices = [''BTC'' \<mapsto> Fin 100], prices_file = None, console = []\<rparr>))
     = Some [''BTC'' \<mapsto> Fin 100]"
proof -
  have h: "parsed_price Map.empty (Inl ''timed out'') coin_id = None" for coin_id
    by (simp add: parsed_price_def)
  from total_failure_all_unknown [of Map.empty "Inl ''timed out''" "WriteFails ''disk full'' None"
      "\<lparr>last_prices = [''BTC'' \<mapsto> Fin 100], prices_file = None, console = []\<rparr>", OF h]
  show ?thesis
    by (simp add: get_market_prices_def mark_all_unknown_def TICKERS_def)
qed

subsection \<open>Failure of one symbol\<close>

text \<open>
  Claim C5. Let the price of ticker \<open>m\<close> fail to parse from the response \<open>data\<close> (its
  data is omitted or malformed), and let \<open>data'\<close> be any response that agrees with \<open>data\<close>
  on every coin id but that of \<open>m\<close>, such as the response in which the failure did not occur.
  Then the entry of \<open>m\<close> is an absent price with the "unknown" indicator, the entry of every
  other ticker is the same for \<open>data\<close> and \<open>data'\<close>, and the snapshot still has an entry for
  every ticker.
\<close>

theorem partial_failure_isolated:
  assumes "(m, cm) \<in> set TICKERS"
    and "parsed_price fl (Inr data) cm = None"
    and "(n, cn) \<in> set TICKERS"
    and "n \<noteq> m"
    and "\<And>c. c \<noteq> cm \<Longrightarrow> getitem data' c = getitem data c"
  shows "map_of (fst (get_market_prices fl (Inr data) wr w)) m = Some (None, arrow_unknown) \<and>
         map_of (fst (get_market_prices fl (Inr data) wr w)) n =
           map_of (fst (get_market_prices fl (Inr data') wr w)) n \<and>
         map fst (fst (get_market_prices fl (Inr data) wr w)) = map fst TICKERS"
proof -
  from assms(1,3,4) have "cn \<noteq> cm"
    using coin_id_inj by blast
  then have "current_price fl data' cn = current_price fl data cn"
    by (intro current_price_cong assms(5))
  then have same: "parsed_price fl (Inr data') cn = parsed_price fl (Inr data) cn"
    by (simp add: parsed_price_def)
  show ?thesis
    by (simp add: snapshot_of_fetch [OF assms(1)] snapshot_of_fetch [OF assms(3)] assms(2) same
          snapshot_entry_def keys_of_fetch)
qed

theorem partial_failure_isolated_witness:
  "(''BTC'', ''bitcoin'') \<in> set TICKERS \<and>
   parsed_price Map.empty (Inr (JObj [(''ethereum'', JObj [(''usd'', JFloat (Fin 3000))])])) ''bitcoin'' = None \<and>
   (''ETH'', ''ethereum'') \<in> set TICKERS \<and> ''ETH'' \<noteq> ''BTC'' \<and>
   map_of (fst (get_market_prices Map.empty
       (Inr (JObj [(''ethereum'', JObj [(''usd'', JFloat (Fin 3000))])])) WriteOk
       \<lparr>last_prices = [''ETH'' \<mapsto> Fin 3100], prices_file = None, console = []\<rparr>)) ''BTC''
     = Some (None, arrow_unknown) \<and>
   map_of (fst (get_market_prices Map.empty
       (Inr (JObj [(''ethereum'', JObj [(''usd'', JFloat (Fin 3000))])])) WriteOk
       \<lparr>last_prices = [''ETH'' \<mapsto> Fin 3100], prices_file = None, console = []\<rparr>)) ''ETH''
     = map_of (fst (get_market_prices Map.empty
       (Inr (JObj [(''bitcoin'', JObj [(''usd'', JFloat (Fin 65000))]),
                   (''ethereum'', JObj [(''usd'', JFloat (Fin 3000))])])) WriteOk
       \<lparr>last_prices = [''ETH'' \<mapsto> Fin 3100], prices_file = None, console = []\<rparr>)) ''ETH''"
proof -
  have a: "(''BTC'', ''bitcoin'') \<in> set TICKERS" and c: "(''ETH'', ''ethereum'') \<in> set TICKERS"
    by (simp_all add: TICKERS_def)
  have b: "parsed_price Map.empty (Inr (JObj [(''ethereum'', JObj [(''usd'', JFloat (Fin 3000))])])) ''bitcoin'' = None"
    by (simp add: parsed_price_def current_price_def getitem_def)
  have d: "''ETH'' \<noteq> ''BTC''" by simp
  have e: "getitem (JObj [(''bitcoin'', JObj [(''usd'', JFloat (Fin 65000))]),
                   (''ethereum'', JObj [(''usd'', JFloat (Fin 3000))])]) c
            = getitem (JObj [(''ethereum'', JObj [(''usd'', JFloat (Fin 3000))])]) c"
    if "c \<noteq> ''bitcoin''" for c
    using that by (simp add: getitem_def)
  from partial_failure_isolated [OF a b c d e, of WriteOk
      "\<lparr>last_prices = [''ETH'' \<mapsto> Fin 3100], prices_file = None, console = []\<rparr>"] a b c d
  show ?thesis by simp
qed

text \<open>
  Claim C10. A fetch in which the price of a ticker fails to parse leaves the price stored
  for that symbol as it was, so in any next fetch the entry of the symbol, indicator
  included, is the one computed against the price stored before the failing fetch.
\<close>

theorem failed_symbol_keeps_stored_price:
  assumes "(name, coin_id) \<in> set TICKERS"
    and "parsed_price fl resp coin_id = None"
  shows "last_prices (snd (get_market_prices fl resp wr w)) name = last_prices w name \<and>
         map_of (fst (get_market_prices fl resp' wr' (snd (get_market_prices fl resp wr w)))) name =
           map_of (fst (get_market_prices fl resp' wr' w)) name"
  by (simp add: snapshot_of_fetch [OF assms(1)] last_prices_of_fetch [OF assms(1)] assms(2))

theorem failed_symbol_keeps_stored_price_witness:
  "(''BTC'', ''bitcoin'') \<in> set TICKERS \<and>
   parsed_price Map.empty (Inr (JObj [(''bitcoin'', JObj [(''usd'', JNull)])])) ''bitcoin'' = None \<and>
   last_prices (snd (get_market_prices Map.empty
       (Inr (JObj [(''bitcoin'', JObj [(''usd'', JNull)])])) WriteOk
       \<lparr>last_prices = [''BTC'' \<mapsto> Fin 100], prices_file = None, console = []\<rparr>)) ''BTC''
     = Some (Fin 100) \<and>
   map_of (fst (get_market_prices Map.empty
       (Inr (JObj [(''bitcoin'', JObj [(''usd'', JFloat (Fin 101))])])) WriteOk
       (snd (get_market_prices Map.empty
          (Inr (JObj [(''bitcoin'', JObj [(''usd'', JNull)])])) WriteOk
          \<lparr>last_prices = [''BTC'' \<mapsto> Fin 100], prices_file = None, console = []\<rparr>)))) ''BTC''
     = Some (Some (Fin 101), arrow_up)"
proof -
  have a: "(''BTC'', ''bitcoin'') \<in> set TICKERS"
    by (simp add: TICKERS_def)
  have b: "parsed_price Map.empty (Inr (JObj [(''bitcoin'', JObj [(''usd'', JNull)])])) ''bitcoin'' = None"
    by (simp add: parsed_price_def current_price_def getitem_def py_float_def)
  have "round2 101 = 101"
    by code_simp
  then have r: "py_round2 (Fin 101) = Fin 101"
    by (simp only: py_round2_def pyfloat.simps)
  have c: "map_of (fst (get_market_prices Map.empty
       (Inr (JObj [(''bitcoin'', JObj [(''usd'', JFloat (Fin 101))])])) WriteOk
       \<lparr>last_prices = [''BTC'' \<mapsto> Fin 100], prices_file = None, console = []\<rparr>)) ''BTC''
     = Some (Some (Fin 101), arrow_up)"
    by (simp add: snapshot_of_fetch [OF a] parsed_price_def current_price_def getitem_def
          py_float_def r snapshot_entry_def)
  from failed_symbol_keeps_stored_price [OF a b, of WriteOk
      "\<lparr>last_prices = [''BTC'' \<mapsto> Fin 100], prices_file = None, console = []\<rparr>"
      "Inr (JObj [(''bitcoin'', JObj [(''usd'', JFloat (Fin 101))])])" WriteOk] a b c
  show ?thesis by simp
qed

section \<open>Properties of the scheduler loop\<close>

subsection \<open>One iteration in closed form\<close>

lemma target_step_miss:
  "hour now \<noteq> h \<or> minute now \<noteq> m \<or> stopped s \<Longrightarrow> target_step now ok s (h, m) = s"
  by (auto simp: target_step_def)

lemma target_step_hit:
  "\<not> stopped s \<Longrightarrow>
   target_step now ok s (hour now, minute now) =
     (if clock_key now \<in> sent_today s then s
      else if ok then s\<lparr>sent_today := insert (clock_key now) (sent_today s),
                        broadcasts := broadcasts s @ [clock_key now]\<rparr>
      else s\<lparr>stopped := True\<rparr>)"
  by (simp add: target_step_def clock_key_def Let_def)

lemma targets_loop:
  assumes "\<not> stopped s"
  shows "foldl (target_step now ok) s target_times =
     (if (hour now, minute now) \<in> set target_times then target_step now ok s (hour now, minute now)
      else s)"
proof -
  consider "hour now = 9 \<and> minute now = 0" | "hour now = 12 \<and> minute now = 0"
    | "hour now = 19 \<and> minute now = 0" | "(hour now, minute now) \<notin> set target_times"
    by (cases "(hour now, minute now) \<in> set target_times") (auto simp: target_times_def)
  then show ?thesis
  proof cases
    case 1
    have "foldl (target_step now ok) s target_times = target_step now ok s (9, 0)"
      using 1 by (simp add: target_times_def target_step_miss)
    with 1 show ?thesis by (simp add: target_times_def)
  next
    case 2
    have "foldl (target_step now ok) s target_times = target_step now ok s (12, 0)"
      using 2 by (simp add: target_times_def target_step_miss)
    with 2 show ?thesis by (simp add: target_times_def)
  next
    case 3
    have "foldl (target_step now ok) s target_times = target_step now ok s (19, 0)"
      using 3 by (simp add: target_times_def target_step_miss)
    with 3 show ?thesis by (simp add: target_times_def)
  next
    case 4
    then have "foldl (target_step now ok) s target_times = s"
      by (simp add: target_times_def target_step_miss)
    with 4 show ?thesis by simp
  qed
qed

lemma tick_eq:
  "tick s (now, ok) =
     (if stopped s then s
      else if (hour now, minute now) \<in> set target_times then
        (if clock_key now \<in> sent_today s then s
         else if ok then s\<lparr>sent_today := insert (clock_key now) (sent_today s),
                           broadcasts := broadcasts s @ [clock_key now]\<rparr>
         else s\<lparr>stopped := True\<rparr>)
      else if hour now = 0 \<and> minute now = 0 then s\<lparr>sent_today := {}\<rparr>
      else s)"
proof (cases "stopped s")
  case True
  then show ?thesis by (simp add: tick_def)
next
  case False
  show ?thesis
  proof (cases "(hour now, minute now) \<in> set target_times")
    case hit: True
    then have "\<not> (hour now = 0 \<and> minute now = 0)"
      by (auto simp: target_times_def)
    with False hit show ?thesis
      by (auto simp: tick_def targets_loop target_step_hit Let_def)
  next
    case miss: False
    with False show ?thesis
      by (auto simp: tick_def targets_loop Let_def)
  qed
qed

lemma target_not_midnight: "tm \<in> set target_times \<Longrightarrow> tm \<noteq> (0, 0)"
  by (auto simp: target_times_def)

lemma tick_loop_distinct:
  assumes "sorted (map (\<lambda>smp. clock_key (fst smp)) rest)"
    and "distinct (broadcasts s)"
    and "\<forall>k\<in>set (broadcasts s). k \<in> sent_today s \<or> (\<forall>smp\<in>set rest. k < clock_key (fst smp))"
    and "\<forall>k\<in>sent_today s. (\<forall>smp\<in>set rest. k \<le> clock_key (fst smp)) \<and> snd k \<in> set target_times"
  shows "distinct (broadcasts (foldl tick s rest))"
  using assms
proof (induction rest arbitrary: s)
  case Nil
  then show ?case by simp
next
  case (Cons smp rest)
  obtain now ok where smp: "smp = (now, ok)" by (cases smp)
  from Cons.prems(1) have later: "\<forall>r\<in>set rest. clock_key now \<le> clock_key (fst r)"
    and srt: "sorted (map (\<lambda>smp. clock_key (fst smp)) rest)"
    by (auto simp: smp)
  have b: "\<forall>k\<in>set (broadcasts s). k \<in> sent_today s \<or> k < clock_key now"
    using Cons.prems(3) by (auto simp: smp)
  have b_rest: "\<forall>k\<in>set (broadcasts s). k \<in> sent_today s \<or> (\<forall>r\<in>set rest. k < clock_key (fst r))"
    using Cons.prems(3) by auto
  have c: "\<forall>k\<in>sent_today s. k \<le> clock_key now \<and> snd k \<in> set target_times"
    using Cons.prems(4) by (auto simp: smp)
  have c_rest: "\<forall>k\<in>sent_today s. (\<forall>r\<in>set rest. k \<le> clock_key (fst r)) \<and> snd k \<in> set target_times"
    using Cons.prems(4) by auto
  let ?s' = "tick s (now, ok)"
  have inv: "distinct (broadcasts ?s') \<and>
      (\<forall>k\<in>set (broadcasts ?s'). k \<in> sent_today ?s' \<or> (\<forall>r\<in>set rest. k < clock_key (fst r))) \<and>
      (\<forall>k\<in>sent_today ?s'. (\<forall>r\<in>set rest. k \<le> clock_key (fst r)) \<and> snd k \<in> set target_times)"
  proof -
    consider (same) "broadcasts ?s' = broadcasts s" "sent_today ?s' = sent_today s"
      | (send) "(hour now, minute now) \<in> set target_times" "clock_key now \<notin> sent_today s"
          "?s' = s\<lparr>sent_today := insert (clock_key now) (sent_today s),
                    broadcasts := broadcasts s @ [clock_key now]\<rparr>"
      | (clear) "(hour now, minute now) \<notin> set target_times" "hour now = 0" "minute now = 0"
          "?s' = s\<lparr>sent_today := {}\<rparr>"
      by (cases "stopped s"; cases "(hour now, minute now) \<in> set target_times";
          cases "clock_key now \<in> sent_today s"; cases ok;
          cases "hour now = 0 \<and> minute now = 0")
         (simp_all add: tick_eq)
    then show ?thesis
    proof cases
      case same
      then show ?thesis
        using Cons.prems(2) b_rest c_rest by simp
    next
      case send
      have fresh: "clock_key now \<notin> set (broadcasts s)"
        using b send(2) by auto
      have tgt: "snd (clock_key now) \<in> set target_times"
        using send(1) by (simp add: clock_key_def)
      show ?thesis
        using Cons.prems(2) b_rest c_rest fresh tgt later by (auto simp: send(3))
    next
      case clear
      have mid: "snd (clock_key now) = (0, 0)"
        using clear(2,3) by (simp add: clock_key_def)
      have before: "k < clock_key now" if "k \<in> set (broadcasts s)" for k
      proof (cases "k \<in> sent_today s")
        case True
        with c have "k \<le> clock_key now" and "snd k \<in> set target_times" by auto
        with mid target_not_midnight have "k \<noteq> clock_key now" by metis
        with \<open>k \<le> clock_key now\<close> show ?thesis by simp
      next
        case False
        with b that show ?thesis by auto
      qed
      have "k < clock_key (fst r)" if "k \<in> set (broadcasts s)" "r \<in> set rest" for k r
        using before [OF that(1)] later that(2) by (meson less_le_trans)
      then show ?thesis
        using Cons.prems(2) by (simp add: clear(4))
    qed
  qed
  from inv have "distinct (broadcasts (foldl tick ?s' rest))"
    by (intro Cons.IH srt) auto
  then show ?case by (simp add: smp)
qed

lemma distinct_broadcasts:
  "sorted (map (\<lambda>smp. clock_key (fst smp)) samples) \<Longrightarrow> distinct (broadcasts (schedule_updates samples))"
  unfolding schedule_updates_def by (rule tick_loop_distinct) simp_all


lemma count_list_distinct:
  "distinct xs \<Longrightarrow> count_list xs x = (if x \<in> set xs then 1 else 0)"
  by (induction xs) auto

lemma tick_loop_reaches:
  assumes "\<not> stopped s"
    and "sent_today s \<subseteq> set (broadcasts s)"
    and "\<forall>smp\<in>set rest. snd smp"
  shows "\<not> stopped (foldl tick s rest) \<and>
         set (broadcasts s) \<subseteq> set (broadcasts (foldl tick s rest)) \<and>
         (\<forall>smp\<in>set rest. (hour (fst smp), minute (fst smp)) \<in> set target_times \<longrightarrow>
            clock_key (fst smp) \<in> set (broadcasts (foldl tick s rest)))"
  using assms
proof (induction rest arbitrary: s)
  case Nil
  then show ?case by simp
next
  case (Cons smp rest)
  obtain now ok where smp: "smp = (now, ok)" by (cases smp)
  from Cons.prems(3) have ok: ok and oks: "\<forall>r\<in>set rest. snd r"
    by (auto simp: smp)
  let ?s' = "tick s (now, ok)"
  have 1: "\<not> stopped ?s'"
    using Cons.prems(1) ok by (simp add: tick_eq)
  have 2: "sent_today ?s' \<subseteq> set (broadcasts ?s')"
    using Cons.prems(1,2) ok by (auto simp: tick_eq)
  have 3: "set (broadcasts s) \<subseteq> set (broadcasts ?s')"
    using Cons.prems(1) ok by (auto simp: tick_eq)
  have 4: "(hour now, minute now) \<in> set target_times \<Longrightarrow> clock_key now \<in> set (broadcasts ?s')"
    using Cons.prems(1,2) ok by (auto simp: tick_eq)
  from Cons.IH [OF 1 2 oks] 3 4 show ?case
    by (auto simp: smp)
qed

lemma sent_today_keys:
  "sent_today (foldl tick s rest) \<subseteq> sent_today s \<union> (\<lambda>smp. clock_key (fst smp)) ` set rest"
proof (induction rest arbitrary: s)
  case Nil
  then show ?case by simp
next
  case (Cons smp rest)
  obtain now ok where smp: "smp = (now, ok)" by (cases smp)
  have "sent_today (tick s (now, ok)) \<subseteq> insert (clock_key now) (sent_today s)"
    by (auto simp: tick_eq)
  with Cons.IH [of "tick s (now, ok)"] show ?case
    by (auto simp: smp)
qed

subsection \<open>At most one broadcast for a target on a date\<close>

text \<open>
  Claim C2, as amended. For every run in which the local clock never goes backwards (the
  positions of the samples on the local time line do not decrease), every date \<open>d\<close> and
  every time \<open>(h, m)\<close>, at most one broadcast is performed with the key \<open>(d, h, m)\<close>,
  however many samples fall into that minute. When moreover every send returns, \<open>(h, m)\<close>
  is a target time and some sample falls into minute \<open>(h, m)\<close> of date \<open>d\<close>, exactly one
  broadcast is performed for it.
\<close>

theorem one_broadcast_per_target_per_day:
  assumes "sorted (map (\<lambda>smp. clock_key (fst smp)) samples)"
  shows "count_list (broadcasts (schedule_updates samples)) (d, h, m) \<le> 1 \<and>
         ((\<forall>smp\<in>set samples. snd smp) \<and> (h, m) \<in> set target_times \<and>
          (\<exists>smp\<in>set samples. clock_key (fst smp) = (d, h, m))
            \<longrightarrow> count_list (broadcasts (schedule_updates samples)) (d, h, m) = 1)"
proof -
  have dist: "distinct (broadcasts (schedule_updates samples))"
    using assms by (rule distinct_broadcasts)
  have "(d, h, m) \<in> set (broadcasts (schedule_updates samples))"
    if oks: "\<forall>smp\<in>set samples. snd smp" and tgt: "(h, m) \<in> set target_times"
      and smp: "smp \<in> set samples" and key: "clock_key (fst smp) = (d, h, m)" for smp
  proof -
    from key have "(hour (fst smp), minute (fst smp)) = (h, m)"
      by (simp add: clock_key_def)
    with tgt have "(hour (fst smp), minute (fst smp)) \<in> set target_times" by simp
    with tick_loop_reaches [of "\<lparr>sent_today = {}, broadcasts = [], stopped = False\<rparr>" samples] oks smp
    have "clock_key (fst smp) \<in> set (broadcasts (schedule_updates samples))"
      by (simp add: schedule_updates_def)
    with key show ?thesis by simp
  qed
  with dist show ?thesis
    by (auto simp: count_list_distinct)
qed

theorem one_broadcast_per_target_per_day_witness:
  "sorted (map (\<lambda>smp. clock_key (fst smp))
     [(\<lparr>year = 2026, month = 1, day = 5, hour = 9, minute = 0, second = 7\<rparr>, True),
      (\<lparr>year = 2026, month = 1, day = 5, hour = 9, minute = 0, second = 37\<rparr>, True)]) \<and>
   count_list (broadcasts (schedule_updates
     [(\<lparr>year = 2026, month = 1, day = 5, hour = 9, minute = 0, second = 7\<rparr>, True),
      (\<lparr>year = 2026, month = 1, day = 5, hour = 9, minute = 0, second = 37\<rparr>, True)]))
     ((2026, 1, 5), 9, 0) = 1"
proof -
  have a: "sorted (map (\<lambda>smp. clock_key (fst smp))
     [(\<lparr>year = 2026, month = 1, day = 5, hour = 9, minute = 0, second = 7\<rparr>, True),
      (\<lparr>year = 2026, month = 1, day = 5, hour = 9, minute = 0, second = 37\<rparr>, True)])"
    by (simp add: clock_key_def date_def)
  from one_broadcast_per_target_per_day [OF a, of "(2026, 1, 5)" 9 0] a
  show ?thesis
    by (simp add: clock_key_def date_def target_times_def)
qed

text \<open>
  The claim as stated is about every run. In a run in which the local clock is set back
  from 09:00 to 00:00 of the same date, the sample at 00:00 empties the sent set and the
  next sample at 09:00 is broadcast again: two broadcasts for one target on one date.
\<close>

theorem clock_set_back_counterexample:
  "count_list (broadcasts (schedule_updates
     [(\<lparr>year = 2026, month = 1, day = 5, hour = 9, minute = 0, second = 7\<rparr>, True),
      (\<lparr>year = 2026, month = 1, day = 5, hour = 0, minute = 0, second = 7\<rparr>, True),
      (\<lparr>year = 2026, month = 1, day = 5, hour = 9, minute = 0, second = 37\<rparr>, True)]))
     ((2026, 1, 5), 9, 0) = 2"
  by (simp add: schedule_updates_def tick_eq target_times_def clock_key_def date_def)

subsection \<open>A new date\<close>

text \<open>
  Claim C8. Let the loop have processed the samples \<open>pre\<close> without ending, and let \<open>now\<close> be
  a sample in the minute of a target time such that no earlier sample has the same date, hour
  and minute (the first sample of that target minute on a new date). Then the iteration for
  \<open>now\<close> performs a broadcast, whatever was broadcast on earlier dates: the key holds the
  date. Moreover an iteration whose sample is in the minute 00:00 leaves the sent set empty.
\<close>

theorem broadcast_again_on_new_date:
  assumes "(hour now, minute now) \<in> set target_times"
    and "\<forall>smp\<in>set pre. clock_key (fst smp) \<noteq> clock_key now"
    and "\<not> stopped (schedule_updates pre)"
  shows "broadcasts (schedule_updates (pre @ [(now, True)])) =
           broadcasts (schedule_updates pre) @ [clock_key now] \<and>
         (\<forall>t ok. hour t = 0 \<and> minute t = 0 \<longrightarrow>
            sent_today (schedule_updates (pre @ [(t, ok)])) = {})"
proof -
  have sub: "sent_today (schedule_updates pre) \<subseteq> (\<lambda>smp. clock_key (fst smp)) ` set pre"
    using sent_today_keys [of "\<lparr>sent_today = {}, broadcasts = [], stopped = False\<rparr>" pre]
    by (simp add: schedule_updates_def)
  have fresh: "clock_key now \<notin> sent_today (schedule_updates pre)"
  proof
    assume "clock_key now \<in> sent_today (schedule_updates pre)"
    with sub have "clock_key now \<in> (\<lambda>smp. clock_key (fst smp)) ` set pre"
      by (rule subsetD)
    then obtain smp where eq: "clock_key now = clock_key (fst smp)" and mem: "smp \<in> set pre"
      by (rule imageE)
    from bspec [OF assms(2) mem] eq show False
      by simp
  qed
  have step: "schedule_updates (pre @ [x]) = tick (schedule_updates pre) x" for x
    by (simp add: schedule_updates_def)
  have midnight: "((0::nat), (0::nat)) \<notin> set target_times"
    by (simp add: target_times_def)
  show ?thesis
    using assms(1,3) fresh midnight by (simp add: step tick_eq)
qed

theorem broadcast_again_on_new_date_witness:
  "(hour \<lparr>year = 2026, month = 1, day = 6, hour = 9, minute = 0, second = 7\<rparr>,
    minute \<lparr>year = 2026, month = 1, day = 6, hour = 9, minute = 0, second = 7\<rparr>) \<in> set target_times \<and>
   \<not> stopped (schedule_updates
     [(\<lparr>year = 2026, month = 1, day = 5, hour = 9, minute = 0, second = 7\<rparr>, True),
      (\<lparr>year = 2026, month = 1, day = 6, hour = 0, minute = 0, second = 7\<rparr>, True)]) \<and>
   broadcasts (schedule_updates
     [(\<lparr>year = 2026, month = 1, day = 5, hour = 9, minute = 0, second = 7\<rparr>, True),
      (\<lparr>year = 2026, month = 1, day = 6, hour = 0, minute = 0, second = 7\<rparr>, True),
      (\<lparr>year = 2026, month = 1, day = 6, hour = 9, minute = 0, second = 7\<rparr>, True)])
     = [((2026, 1, 5), 9, 0), ((2026, 1, 6), 9, 0)]"
proof -
  let ?pre = "[(\<lparr>year = 2026, month = 1, day = 5, hour = 9, minute = 0, second = 7\<rparr>, True),
      (\<lparr>year = 2026, month = 1, day = 6, hour = 0, minute = 0, second = 7\<rparr>, True)]"
  let ?now = "\<lparr>year = 2026, month = 1, day = 6, hour = 9, minute = 0, second = 7\<rparr>"
  have a: "(hour ?now, minute ?now) \<in> set target_times"
    by (simp add: target_times_def)
  have b: "\<forall>smp\<in>set ?pre. clock_key (fst smp) \<noteq> clock_key ?now"
    by (simp add: clock_key_def date_def)
  have pre: "schedule_updates ?pre =
      \<lparr>sent_today = {}, broadcasts = [((2026, 1, 5), 9, 0)], stopped = False\<rparr>"
    by (simp add: schedule_updates_def tick_eq target_times_def clock_key_def date_def)
  have c: "\<not> stopped (schedule_updates ?pre)"
    using pre by simp
  from broadcast_again_on_new_date [OF a b c] a c pre show ?thesis
    by (simp add: clock_key_def date_def)
qed

section \<open>Properties of the handlers\<close>

subsection \<open>Text messages\<close>

lemma py_in_sublist: "py_in needle hay = sublist needle hay"
  by (induction hay) (auto simp: sublist_Cons_right)



lemma replace_no_occurrence:
  "\<not> sublist old s \<Longrightarrow> replace old new s = s"
proof (induction s)
  case Nil
  then show ?case by simp
next
  case (Cons c cs)
  from Cons.prems have "\<not> prefix old (c # cs)" and "\<not> sublist old cs"
    by (auto simp: sublist_Cons_right)
  with Cons.IH show ?case by simp
qed

lemma replace_at_head:
  "old \<noteq> [] \<Longrightarrow> replace old new (old @ post) = new @ replace old new post"
  by (cases old) simp_all

lemma replace_first_occurrence:
  assumes "old \<noteq> []" and "hd old \<notin> set pre"
  shows "replace old new (pre @ old @ post) = pre @ new @ replace old new post"
  using assms(2)
proof (induction pre)
  case Nil
  with assms(1) show ?case by (simp add: replace_at_head)
next
  case (Cons c pre)
  from Cons.prems assms(1) have "\<not> prefix old (c # pre @ old @ post)"
    by (cases old) auto
  with Cons show ?case by simp
qed



subsection \<open>Membership changes\<close>

text \<open>
  Claim C9. The handler sends a message iff the old status is \<open>left\<close> or \<open>kicked\<close> and the
  new status is \<open>member\<close>. The message then goes to the chat of the update in HTML mode, and
  its text is the template stored under \<open>_welcome\<close> (the default template when the table
  has none) in which \<open>{name}\<close> is replaced by the mention of the new member; for a template
  with one placeholder, \<open>pre @ {name} @ post\<close>, the text is \<open>pre\<close>, the mention, \<open>post\<close>.
\<close>

theorem welcome_on_join:
  "(welcome_handler responses result \<noteq> [] \<longleftrightarrow>
      (old_status result = ''left'' \<or> old_status result = ''kicked'') \<and>
      new_status result = ''member'') \<and>
   (welcome_handler responses result \<noteq> [] \<longrightarrow>
      welcome_handler responses result =
        [SendMessage (chat_id result)
           (replace ''{name}'' (mention_html result)
              (case map_of responses ''_welcome'' of Some t \<Rightarrow> t | None \<Rightarrow> default_welcome))
           ''HTML'']) \<and>
   (\<forall>pre post. CHR ''{'' \<notin> set pre \<and> \<not> sublist ''{name}'' post \<longrightarrow>
      replace ''{name}'' (mention_html result) (pre @ ''{name}'' @ post) =
        pre @ mention_html result @ post)"
proof -
  have "replace ''{name}'' m (pre @ ''{name}'' @ post) = pre @ m @ post"
    if "CHR ''{'' \<notin> set pre" "\<not> sublist ''{name}'' post" for m pre post
    using that replace_first_occurrence [of "''{name}''" pre m post]
    by (simp add: replace_no_occurrence)
  then show ?thesis
    by (simp add: welcome_handler_def Let_def)
qed

theorem welcome_on_join_witness:
  "welcome_handler [(''hello'', ''Hi''), (''_welcome'', ''Welcome {name} to our Trading Group!'')]
     \<lparr>old_status = ''left'', new_status = ''member'',
        mention_html = ''<a href=x>Bob</a>'', chat_id = - 100\<rparr>
   = [SendMessage (- 100) ''Welcome <a href=x>Bob</a> to our Trading Group!'' ''HTML''] \<and>
   welcome_handler [(''hello'', ''Hi''), (''_welcome'', ''Welcome {name} to our Trading Group!'')]
     \<lparr>old_status = ''restricted'', new_status = ''member'',
        mention_html = ''<a href=x>Bob</a>'', chat_id = - 100\<rparr>
   = []"
proof -
  let ?r = "[(''hello'', ''Hi''), (''_welcome'', ''Welcome {name} to our Trading Group!'')]"
  let ?j = "\<lparr>old_status = ''left'', new_status = ''member'',
        mention_html = ''<a href=x>Bob</a>'', chat_id = - 100\<rparr>"
  let ?k = "\<lparr>old_status = ''restricted'', new_status = ''member'',
        mention_html = ''<a href=x>Bob</a>'', chat_id = - 100\<rparr>"
  have np: "\<not> sublist ''{name}'' '' to our Trading Group!''"
    unfolding py_in_sublist [symmetric] by simp
  from welcome_on_join [of ?r ?j] welcome_on_join [of ?r ?k] np
  show ?thesis
    by simp
qed

section \<open>Properties of the message formatter\<close>

lemma format_loop:
  "foldl (\<lambda>message e. message @ format_line e) h prices = h @ concat (map format_line prices)"
  by (induction prices arbitrary: h) simp_all

lemma format_line_ends: "\<exists>l. format_line e = l @ [CHR 0x0A]"
proof -
  obtain coin price arrow where e: "e = (coin, (price, arrow))" by (cases e) auto
  show ?thesis
  proof (cases price)
    case None
    have "format_line e = (glyph_warning @ '' '' @ coin @ ''/USD: N/A'' @ arrow) @ [CHR 0x0A]"
      by (simp add: e None format_line_def)
    then show ?thesis by blast
  next
    case (Some p)
    have "format_line e =
        (coin_symbol coin @ '' '' @ coin @ ''/USD: $'' @ fmt_comma_2f p @ arrow) @ [CHR 0x0A]"
      by (simp add: e Some format_line_def)
    then show ?thesis by blast
  qed
qed

lemma format_lines_end:
  "\<exists>l. h @ [CHR 0x0A] @ concat (map format_line xs) = l @ [CHR 0x0A]"
proof (cases xs rule: rev_cases)
  case Nil
  then show ?thesis by simp
next
  case (snoc ys y)
  from format_line_ends [of y] obtain l where "format_line y = l @ [CHR 0x0A]" ..
  then have "h @ [CHR 0x0A] @ concat (map format_line xs) =
      (h @ [CHR 0x0A] @ concat (map format_line ys) @ l) @ [CHR 0x0A]"
    by (simp add: snoc)
  then show ?thesis by blast
qed

lemma digit_char_0: "digit_char 0 = CHR ''0''" by code_simp
lemma digit_char_5: "digit_char 5 = CHR ''5''" by code_simp
lemma digit_char_6: "digit_char 6 = CHR ''6''" by code_simp

lemma round_6500050: "round_half_even 6500050 = 6500050"
  by (simp add: round_half_even_def)

lemma str_nat_65000: "str_nat 65000 = ''65000''"
  by (simp add: digit_char_0 digit_char_5 digit_char_6)

lemma str_nat_50: "str_nat 50 = ''50''"
  by (simp add: digit_char_0 digit_char_5)

lemma commas_65000: "commas ''65000'' = ''65,000''"
  by (simp add: commas_def)

lemma fmt_65000_50: "fmt_comma_2f (Fin (130001 / 2)) = ''65,000.50''"
  by (simp add: fmt_comma_2f_def round_6500050 str_nat_65000 str_nat_50 commas_65000 zfill_def Let_def
        del: str_nat.simps)

lemma arrows_no_newline:
  "CHR 0x0A \<notin> set arrow_flat" "CHR 0x0A \<notin> set arrow_up"
  "CHR 0x0A \<notin> set arrow_down" "CHR 0x0A \<notin> set arrow_unknown"
  by (simp_all add: arrow_flat_def arrow_up_def arrow_down_def arrow_unknown_def)

text \<open>
  Claim C7. When the snapshot has an entry for BTC with the price 65000.5 and one of the four
  movement indicators \<open>a\<close>, the message has a line (the text between two consecutive line
  breaks) that is the BTC glyph, the text \<open> BTC/USD: $65,000.50\<close> and then \<open>a\<close>, that is,
  exactly one movement glyph. The message is a function of the instant, the snapshot and
  the title: equal arguments give the same string.
\<close>

theorem format_btc_line:
  assumes "(''BTC'', (Some (Fin (130001 / 2)), a)) \<in> set prices"
    and "a \<in> {arrow_flat, arrow_up, arrow_down, arrow_unknown}"
  shows "(\<exists>pre post.
            format_market_message now prices title =
              pre @ [CHR 0x0A] @ (glyph_money_bag @ '' BTC/USD: $65,000.50'' @ a) @ [CHR 0x0A] @ post) \<and>
         CHR 0x0A \<notin> set (glyph_money_bag @ '' BTC/USD: $65,000.50'' @ a) \<and>
         (\<forall>now' prices' title'. now' = now \<and> prices' = prices \<and> title' = title \<longrightarrow>
            format_market_message now' prices' title' = format_market_message now prices title)"
proof -
  define line where "line = glyph_money_bag @ '' BTC/USD: $65,000.50'' @ a"
  define h where "h = title @ '' ('' @ strftime now @ ''):'' @ [CHR 0x0A]"
  from assms(1) obtain xs ys where split: "prices = xs @ (''BTC'', (Some (Fin (130001 / 2)), a)) # ys"
    by (auto simp: in_set_conv_decomp)
  have fl: "format_line (''BTC'', (Some (Fin (130001 / 2)), a)) = line @ [CHR 0x0A]"
    by (simp add: format_line_def coin_symbol_def fmt_65000_50 line_def)
  obtain pre where pre: "h @ [CHR 0x0A] @ concat (map format_line xs) = pre @ [CHR 0x0A]"
    using format_lines_end by blast
  have "format_market_message now prices title =
      (h @ [CHR 0x0A] @ concat (map format_line xs)) @ (line @ [CHR 0x0A]) @
        (concat (map format_line ys) @ tagline)"
    unfolding format_market_message_def format_loop split h_def fl [symmetric] by simp
  then have "format_market_message now prices title =
      (pre @ [CHR 0x0A]) @ (line @ [CHR 0x0A]) @ (concat (map format_line ys) @ tagline)"
    by (simp only: pre)
  then have "format_market_message now prices title =
      pre @ [CHR 0x0A] @ line @ [CHR 0x0A] @ (concat (map format_line ys) @ tagline)"
    by simp
  then have 1: "\<exists>pre post. format_market_message now prices title =
      pre @ [CHR 0x0A] @ line @ [CHR 0x0A] @ post"
    by (intro exI)
  have "CHR 0x0A \<notin> set a"
    using assms(2) arrows_no_newline by auto
  then have 2: "CHR 0x0A \<notin> set line"
    by (simp add: line_def glyph_money_bag_def)
  from 1 2 show ?thesis
    unfolding line_def by simp
qed

theorem format_btc_line_witness:
  "(''BTC'', (Some (Fin (130001 / 2)), arrow_up)) \<in> set [(''BTC'', (Some (Fin (130001 / 2)), arrow_up))] \<and>
   arrow_up \<in> {arrow_flat, arrow_up, arrow_down, arrow_unknown} \<and>
   (\<exists>pre post.
      format_market_message
        \<lparr>year = 2026, month = 1, day = 5, hour = 9, minute = 0, second = 7\<rparr>
        [(''BTC'', (Some (Fin (130001 / 2)), arrow_up))] default_title =
      pre @ [CHR 0x0A] @ (glyph_money_bag @ '' BTC/USD: $65,000.50'' @ arrow_up) @ [CHR 0x0A] @ post)"
proof -
  have a: "(''BTC'', (Some (Fin (130001 / 2)), arrow_up)) \<in> set [(''BTC'', (Some (Fin (130001 / 2)), arrow_up))]"
    by simp
  have b: "arrow_up \<in> {arrow_flat, arrow_up, arrow_down, arrow_unknown}"
    by simp
  from format_btc_line [OF a b, of
      "\<lparr>year = 2026, month = 1, day = 5, hour = 9, minute = 0, second = 7\<rparr>" default_title]
  have "\<exists>pre post.
      format_market_message
        \<lparr>year = 2026, month = 1, day = 5, hour = 9, minute = 0, second = 7\<rparr>
        [(''BTC'', (Some (Fin (130001 / 2)), arrow_up))] default_title =
      pre @ [CHR 0x0A] @ (glyph_money_bag @ '' BTC/USD: $65,000.50'' @ arrow_up) @ [CHR 0x0A] @ post"
    by (rule conjunct1)
  with a b show ?thesis by (intro conjI)
qed

end
